theory Spec2Isabelle
  imports Main "HOL-Library.Multiset" "HOL-Library.Char_ord" "HOL-Library.List_Lexorder"
begin

section \<open>Python strings and dictionaries\<close>

text \<open>
  Strings are \<open>char list\<close>, one \<open>char\<close> per character (exchange asset codes and
  symbols are ASCII). With \<open>Char_ord\<close> and \<open>List_Lexorder\<close> the order on strings is the
  lexicographic order Python's \<open>sorted\<close> uses on \<open>str\<close>.
\<close>

text \<open>\<open>s.startswith(p)\<close>\<close>

definition startswith :: "string \<Rightarrow> string \<Rightarrow> bool" where
  "startswith s p = (take (length p) s = p)"

text \<open>\<open>sub in s\<close> on strings: \<open>sub\<close> occurs in \<open>s\<close> as a contiguous block.\<close>

fun str_contains :: "string \<Rightarrow> string \<Rightarrow> bool" where
  "str_contains sub [] = (sub = [])"
| "str_contains sub (c # cs) = (startswith (c # cs) sub \<or> str_contains sub cs)"

text \<open>\<open>s.replace(old, new)\<close> for a one-character \<open>old\<close>: every occurrence is replaced.\<close>

definition str_replace_char :: "char \<Rightarrow> string \<Rightarrow> string \<Rightarrow> string" where
  "str_replace_char old new s = concat (map (\<lambda>c. if c = old then new else [c]) s)"

text \<open>\<open>s.upper()\<close> on ASCII text: the letters a..z (codes 97..122) move down by 32.\<close>

definition upper_char :: "char \<Rightarrow> char" where
  "upper_char c =
     (let n = (of_char c :: nat) in if 97 \<le> n \<and> n \<le> 122 then char_of (n - 32) else c)"

definition str_upper :: "string \<Rightarrow> string" where
  "str_upper s = map upper_char s"

text \<open>
  A Python \<open>dict\<close> is an association list in insertion order with distinct keys:
  \<open>d[k] = v\<close> overwrites in place when \<open>k\<close> is present and appends otherwise;
  \<open>d[k]\<close> raises \<open>KeyError\<close> (here \<open>None\<close>) on a missing key.
\<close>

type_synonym ('k, 'v) dict = "('k \<times> 'v) list"

fun dict_set :: "('k, 'v) dict \<Rightarrow> 'k \<Rightarrow> 'v \<Rightarrow> ('k, 'v) dict" where
  "dict_set [] k v = [(k, v)]"
| "dict_set ((k', v') # d) k v =
     (if k' = k then (k, v) # d else (k', v') # dict_set d k v)"

definition dict_get :: "('k, 'v) dict \<Rightarrow> 'k \<Rightarrow> 'v option" where
  "dict_get d k = map_of d k"

text \<open>\<open>d.get(k, default)\<close>\<close>

definition dict_get_default :: "('k, 'v) dict \<Rightarrow> 'k \<Rightarrow> 'v \<Rightarrow> 'v" where
  "dict_get_default d k dflt = (case dict_get d k of Some v \<Rightarrow> v | None \<Rightarrow> dflt)"

text \<open>\<open>d[k].append(x)\<close>: the list stored under \<open>k\<close> grows at its end, in place.\<close>

definition dict_append :: "('k, 'v list) dict \<Rightarrow> 'k \<Rightarrow> 'v \<Rightarrow> ('k, 'v list) dict option" where
  "dict_append d k x =
     (case dict_get d k of None \<Rightarrow> None | Some xs \<Rightarrow> Some (dict_set d k (xs @ [x])))"

text \<open>A field of a JSON object that may be absent, read with \<open>.get(key, default)\<close>.\<close>

definition get_or :: "'a option \<Rightarrow> 'a \<Rightarrow> 'a" where
  "get_or field dflt = (case field of Some v \<Rightarrow> v | None \<Rightarrow> dflt)"

section \<open>Data model\<close>

text \<open>
  The pair dictionaries the fetchers build. Binance pairs carry the first four keys;
  Kraken pairs carry \<open>kraken_pair\<close>, \<open>wsname\<close> and \<open>altname\<close> as well.
\<close>

record trading_pair =
  symbol :: string
  baseAsset :: string
  quoteAsset :: string
  exchange :: string
  kraken_pair :: "string option"
  wsname :: "string option"
  altname :: "string option"

text \<open>The dictionary a successful \<open>fetch_pairs\<close> returns.\<close>

record fetch_result =
  fr_exchange :: string
  results :: "(string, trading_pair list) dict"
  all_pairs :: "trading_pair list"
  total :: nat

text \<open>
  What \<open>requests.get\<close>, \<open>raise_for_status\<close> and \<open>response.json()\<close> can raise. A response
  is \<open>Inl\<close> of such a failure or \<open>Inr\<close> of the decoded JSON payload.
\<close>

datatype fetch_error = ConnectionFailed | HTTPStatusError | JSONDecodeError

text \<open>A Binance symbol record; a key that is absent from the JSON object is \<open>None\<close>.\<close>

record binance_symbol =
  b_symbol :: "string option"
  b_baseAsset :: "string option"
  b_quoteAsset :: "string option"
  b_status :: "string option"

record binance_data =
  symbols :: "binance_symbol list option"

text \<open>A Kraken pair-info object and the Kraken payload (\<open>error\<close> and \<open>result\<close> keys).\<close>

record kraken_pair_info =
  k_base :: "string option"
  k_quote :: "string option"
  k_altname :: "string option"
  k_wsname :: "string option"

record kraken_data =
  kd_error :: "string list option"
  kd_result :: "(string, kraken_pair_info) dict option"

section \<open>BinanceFetcher.fetch_pairs\<close>

text \<open>\<open>results = {}; for asset in quote_assets: results[asset] = []\<close>\<close>

definition init_results :: "string list \<Rightarrow> (string, trading_pair list) dict" where
  "init_results quote_assets = fold (\<lambda>asset d. dict_set d asset []) quote_assets []"

text \<open>
  One iteration of the loop over \<open>data['symbols']\<close>. \<open>None\<close> is a \<open>KeyError\<close>; the
  \<open>and\<close> of the source short-circuits, so \<open>status\<close> is read only when the quote matches,
  and \<open>symbol\<close> and \<open>baseAsset\<close> only for a record that is kept.
\<close>

fun binance_step ::
  "string list \<Rightarrow> (string, trading_pair list) dict \<times> trading_pair list \<Rightarrow> binance_symbol
     \<Rightarrow> ((string, trading_pair list) dict \<times> trading_pair list) option" where
  "binance_step quote_assets (res, pairs) entry =
     (case b_quoteAsset entry of
        None \<Rightarrow> None
      | Some quote \<Rightarrow>
          if quote \<in> set quote_assets then
            (case b_status entry of
               None \<Rightarrow> None
             | Some st \<Rightarrow>
                 if st = ''TRADING'' then
                   (case b_symbol entry of
                      None \<Rightarrow> None
                    | Some s \<Rightarrow>
                        (case b_baseAsset entry of
                           None \<Rightarrow> None
                         | Some b \<Rightarrow>
                             (let pair_info = \<lparr>symbol = s, baseAsset = b, quoteAsset = quote,
                                    exchange = ''Binance'', kraken_pair = None,
                                    wsname = None, altname = None\<rparr>
                              in case dict_append res quote pair_info of
                                   None \<Rightarrow> None
                                 | Some res' \<Rightarrow> Some (res', pairs @ [pair_info]))))
                 else Some (res, pairs))
          else Some (res, pairs))"

fun binance_loop ::
  "string list \<Rightarrow> (string, trading_pair list) dict \<times> trading_pair list \<Rightarrow> binance_symbol list
     \<Rightarrow> ((string, trading_pair list) dict \<times> trading_pair list) option" where
  "binance_loop quote_assets st [] = Some st"
| "binance_loop quote_assets st (entry # entries) =
     (case binance_step quote_assets st entry of
        None \<Rightarrow> None
      | Some st' \<Rightarrow> binance_loop quote_assets st' entries)"

text \<open>The whole method: every exception inside the \<open>try\<close> block returns \<open>None\<close>.\<close>

definition binance_fetch_pairs :: "fetch_error + binance_data \<Rightarrow> string list \<Rightarrow> fetch_result option" where
  "binance_fetch_pairs response quote_assets =
     (case response of
        Inl e \<Rightarrow> None
      | Inr data \<Rightarrow>
          (case symbols data of
             None \<Rightarrow> None
           | Some entries \<Rightarrow>
               (case binance_loop quote_assets (init_results quote_assets, []) entries of
                  None \<Rightarrow> None
                | Some (res, pairs) \<Rightarrow>
                    Some \<lparr>fr_exchange = ''Binance'', results = res, all_pairs = pairs,
                          total = length pairs\<rparr>)))"

section \<open>KrakenFetcher.fetch_pairs\<close>

text \<open>\<open>self.asset_map\<close>\<close>

definition asset_map :: "(string, string list) dict" where
  "asset_map =
     [(''USD'', [''ZUSD'', ''USD'']),
      (''USDT'', [''USDT'']),
      (''USDC'', [''USDC'']),
      (''EUR'', [''ZEUR'', ''EUR'']),
      (''GBP'', [''ZGBP'', ''GBP'']),
      (''JPY'', [''ZJPY'', ''JPY'']),
      (''CAD'', [''ZCAD'', ''CAD'']),
      (''AUD'', [''ZAUD'', ''AUD'']),
      (''CHF'', [''CHF'']),
      (''DAI'', [''DAI'']),
      (''BUSD'', [''BUSD''])]"

text \<open>The raw Kraken names searched for one requested asset.\<close>

definition kraken_names_of :: "string \<Rightarrow> string list" where
  "kraken_names_of asset =
     (case dict_get asset_map asset of Some names \<Rightarrow> names | None \<Rightarrow> [asset])"

text \<open>\<open>search_assets\<close>, built by the loop over \<open>quote_assets\<close>.\<close>

definition build_search_assets :: "string list \<Rightarrow> (string, string list) dict" where
  "build_search_assets quote_assets =
     fold (\<lambda>asset d. dict_set d asset (kraken_names_of asset)) quote_assets []"

text \<open>The normalisation of the base asset name (the \<open>if\<close>/\<open>elif\<close> on \<open>base_clean\<close>).\<close>

definition base_clean :: "string \<Rightarrow> string" where
  "base_clean base_asset_kraken =
     (if startswith base_asset_kraken ''X'' \<and> length base_asset_kraken = 4
        then drop 1 base_asset_kraken
      else if startswith base_asset_kraken ''Z'' \<and> length base_asset_kraken = 4
        then drop 1 base_asset_kraken
      else base_asset_kraken)"

text \<open>The TradingView symbol: \<open>wsname\<close> without its slashes when truthy, else \<open>altname\<close>.\<close>

definition tv_symbol :: "string \<Rightarrow> kraken_pair_info \<Rightarrow> string" where
  "tv_symbol pair_name pair_info =
     (let alt = get_or (k_altname pair_info) pair_name;
          ws = get_or (k_wsname pair_info) ''''
      in if ws \<noteq> [] then str_replace_char (CHR ''/'') '''' ws else alt)"

text \<open>\<open>pair_data\<close>, the dictionary built for a matching pair.\<close>

definition pair_data :: "string \<Rightarrow> string \<Rightarrow> kraken_pair_info \<Rightarrow> trading_pair" where
  "pair_data original_asset pair_name pair_info =
     \<lparr>symbol = tv_symbol pair_name pair_info,
      baseAsset = base_clean (get_or (k_base pair_info) ''''),
      quoteAsset = original_asset,
      exchange = ''Kraken'',
      kraken_pair = Some pair_name,
      wsname = Some (get_or (k_wsname pair_info) ''''),
      altname = Some (get_or (k_altname pair_info) pair_name)\<rparr>"

text \<open>
  The inner loop over \<open>search_assets.items()\<close>: the first entry whose names contain the
  raw quote yields the pair and the loop breaks; \<open>None\<close> when no entry matches.
\<close>

fun kraken_match :: "(string, string list) dict \<Rightarrow> string \<Rightarrow> kraken_pair_info \<Rightarrow> trading_pair option" where
  "kraken_match [] pair_name pair_info = None"
| "kraken_match ((original_asset, kraken_names) # rest) pair_name pair_info =
     (if get_or (k_quote pair_info) '''' \<in> set kraken_names
        then Some (pair_data original_asset pair_name pair_info)
      else kraken_match rest pair_name pair_info)"

text \<open>One iteration of the loop over \<open>data['result'].items()\<close>.\<close>

fun kraken_step ::
  "(string, string list) dict \<Rightarrow> (string, trading_pair list) dict \<times> trading_pair list
     \<Rightarrow> string \<times> kraken_pair_info
     \<Rightarrow> ((string, trading_pair list) dict \<times> trading_pair list) option" where
  "kraken_step search_assets (res, pairs) (pair_name, pair_info) =
     (if str_contains ''.d'' pair_name then Some (res, pairs)
      else
        (case kraken_match search_assets pair_name pair_info of
           None \<Rightarrow> Some (res, pairs)
         | Some pd \<Rightarrow>
             (case dict_append res (quoteAsset pd) pd of
                None \<Rightarrow> None
              | Some res' \<Rightarrow> Some (res', pairs @ [pd]))))"

fun kraken_loop ::
  "(string, string list) dict \<Rightarrow> (string, trading_pair list) dict \<times> trading_pair list
     \<Rightarrow> (string \<times> kraken_pair_info) list
     \<Rightarrow> ((string, trading_pair list) dict \<times> trading_pair list) option" where
  "kraken_loop search_assets st [] = Some st"
| "kraken_loop search_assets st (item # items) =
     (case kraken_step search_assets st item of
        None \<Rightarrow> None
      | Some st' \<Rightarrow> kraken_loop search_assets st' items)"

definition kraken_fetch_pairs :: "fetch_error + kraken_data \<Rightarrow> string list \<Rightarrow> fetch_result option" where
  "kraken_fetch_pairs response quote_assets =
     (case response of
        Inl e \<Rightarrow> None
      | Inr data \<Rightarrow>
          (case kd_error data of
             None \<Rightarrow> None
           | Some errs \<Rightarrow>
               if errs \<noteq> [] then None
               else
                 (case kd_result data of
                    None \<Rightarrow> None
                  | Some items \<Rightarrow>
                      (case kraken_loop (build_search_assets quote_assets)
                              (init_results quote_assets, []) items of
                         None \<Rightarrow> None
                       | Some (res, pairs) \<Rightarrow>
                           Some \<lparr>fr_exchange = ''Kraken'', results = res, all_pairs = pairs,
                                 total = length pairs\<rparr>))))"

section \<open>main: fetching the selected exchanges\<close>

text \<open>
  \<open>all_results\<close> as \<open>main\<close> builds it: Binance first, then Kraken, each appended whether
  it is a result or \<open>None\<close>. Each fetcher reads its own response.
\<close>

definition fetch_all ::
  "string list \<Rightarrow> fetch_error + binance_data \<Rightarrow> fetch_error + kraken_data \<Rightarrow> string list
     \<Rightarrow> fetch_result option list" where
  "fetch_all exchanges binance_response kraken_response quote_assets =
     (if ''binance'' \<in> set exchanges then [binance_fetch_pairs binance_response quote_assets] else [])
     @ (if ''kraken'' \<in> set exchanges then [kraken_fetch_pairs kraken_response quote_assets] else [])"

section \<open>display_results: common pairs\<close>

text \<open>The normalised \<open>BASE/QUOTE\<close> string of a pair, and the set built from \<open>all_pairs\<close>.\<close>

definition normalized :: "trading_pair \<Rightarrow> string" where
  "normalized pair = baseAsset pair @ ''/'' @ quoteAsset pair"

definition pairs_set :: "fetch_result \<Rightarrow> string set" where
  "pairs_set r = fold (\<lambda>pair s. insert (normalized pair) s) (all_pairs r) {}"

definition exchanges_pairs :: "fetch_result option list \<Rightarrow> (string, string set) dict" where
  "exchanges_pairs all_results =
     fold (\<lambda>r d. case r of None \<Rightarrow> d | Some res \<Rightarrow> dict_set d (fr_exchange res) (pairs_set res))
       all_results []"

text \<open>
  Display choice 3: \<open>(common, only_first, only_second)\<close> when more than one exchange was
  queried and exactly two have sets; \<open>None\<close> when the branch prints nothing.
\<close>

definition common_pairs :: "fetch_result option list \<Rightarrow> (string set \<times> string set \<times> string set) option" where
  "common_pairs all_results =
     (if length all_results > 1 then
        (case exchanges_pairs all_results of
           [(e0, s0), (e1, s1)] \<Rightarrow> Some (s0 \<inter> s1, s0 - s1, s1 - s0)
         | _ \<Rightarrow> None)
      else None)"

section \<open>save_results: TradingView watchlists\<close>

text \<open>
  The lines written to the per-exchange TradingView file, in order; each \<open>f.write\<close> writes
  one line. \<open>sort_key\<close> is a stable sort, as Python's \<open>sorted\<close> is.
\<close>

definition tv_line :: "string \<Rightarrow> trading_pair \<Rightarrow> string" where
  "tv_line exchange_name pair = exchange_name @ '':'' @ symbol pair"

definition tv_lines :: "string list \<Rightarrow> fetch_result \<Rightarrow> string list" where
  "tv_lines quote_assets r =
     (let exchange_name = str_upper (fr_exchange r)
      in concat (map (\<lambda>asset.
           map (tv_line exchange_name)
             (sort_key symbol (dict_get_default (results r) asset [])))
         quote_assets))"

text \<open>The combined file, written only when more than one exchange was queried.\<close>

definition tv_combined :: "string list \<Rightarrow> fetch_result option list \<Rightarrow> string list option" where
  "tv_combined quote_assets all_results =
     (if length all_results > 1 then
        Some (concat (map (\<lambda>r. case r of None \<Rightarrow> [] | Some res \<Rightarrow> tv_lines quote_assets res)
                all_results))
      else None)"

section \<open>Specification predicates\<close>

text \<open>A Binance record is kept: its quote is requested and its status is \<open>TRADING\<close>.\<close>

definition binance_keep :: "string list \<Rightarrow> binance_symbol \<Rightarrow> bool" where
  "binance_keep quote_assets entry =
     ((case b_quoteAsset entry of None \<Rightarrow> False | Some q \<Rightarrow> q \<in> set quote_assets)
      \<and> b_status entry = Some ''TRADING'')"

text \<open>A Binance record that carries all four keys.\<close>

definition binance_complete :: "binance_symbol \<Rightarrow> bool" where
  "binance_complete entry =
     (b_symbol entry \<noteq> None \<and> b_baseAsset entry \<noteq> None \<and> b_quoteAsset entry \<noteq> None
      \<and> b_status entry \<noteq> None)"

text \<open>A Kraken item is kept: no \<open>.d\<close> in its name and its raw quote is an alias of a requested asset.\<close>

definition kraken_keep :: "string list \<Rightarrow> string \<times> kraken_pair_info \<Rightarrow> bool" where
  "kraken_keep quote_assets item =
     (\<not> str_contains ''.d'' (fst item)
      \<and> list_ex (\<lambda>q. get_or (k_quote (snd item)) '''' \<in> set (kraken_names_of q)) quote_assets)"

text \<open>
  The normaliser's effect on one raw Kraken item, stated from the request list: skipped when
  the name contains \<open>.d\<close>; otherwise attributed to the first requested asset, in request
  order, whose Kraken names contain the raw quote.
\<close>

definition kraken_normalize :: "string list \<Rightarrow> string \<times> kraken_pair_info \<Rightarrow> trading_pair option" where
  "kraken_normalize quote_assets item =
     (if str_contains ''.d'' (fst item) then None
      else
        (case find (\<lambda>q. get_or (k_quote (snd item)) '''' \<in> set (kraken_names_of q)) quote_assets of
           None \<Rightarrow> None
         | Some q \<Rightarrow> Some (pair_data q (fst item) (snd item))))"

text \<open>
  The invariant of both fetch loops: \<open>results\<close> holds, under each requested asset and under
  no other key, the pairs of \<open>all_pairs\<close> with that \<open>quoteAsset\<close>, in order.
\<close>

definition grouped :: "string list \<Rightarrow> (string, trading_pair list) dict \<Rightarrow> trading_pair list \<Rightarrow> bool" where
  "grouped quote_assets d ps =
     ((\<forall>q. dict_get d q =
            (if q \<in> set quote_assets then Some (filter (\<lambda>p. quoteAsset p = q) ps) else None))
      \<and> (\<forall>p \<in> set ps. quoteAsset p \<in> set quote_assets))"

section \<open>Example payloads\<close>

text \<open>
  A small Binance listing: two trading pairs, one pair quoted in an asset that is not
  requested below, and one pair that is not trading.
\<close>

definition example_binance_data :: binance_data where
  "example_binance_data =
     \<lparr>symbols = Some
        [\<lparr>b_symbol = Some ''ETHUSDT'', b_baseAsset = Some ''ETH'',
          b_quoteAsset = Some ''USDT'', b_status = Some ''TRADING''\<rparr>,
         \<lparr>b_symbol = Some ''BTCUSD'', b_baseAsset = Some ''BTC'',
          b_quoteAsset = Some ''USD'', b_status = Some ''TRADING''\<rparr>,
         \<lparr>b_symbol = Some ''ETHBTC'', b_baseAsset = Some ''ETH'',
          b_quoteAsset = Some ''BTC'', b_status = Some ''TRADING''\<rparr>,
         \<lparr>b_symbol = Some ''LUNAUSDT'', b_baseAsset = Some ''LUNA'',
          b_quoteAsset = Some ''USDT'', b_status = Some ''BREAK''\<rparr>]\<rparr>"

text \<open>
  A small Kraken listing: a legacy-coded pair, its \<open>.d\<close> variant, a pair with a bare quote
  code, and a pair quoted in an asset that is not requested below.
\<close>

definition example_kraken_data :: kraken_data where
  "example_kraken_data =
     \<lparr>kd_error = Some [],
      kd_result = Some
        [(''XXBTZUSD'', \<lparr>k_base = Some ''XXBT'', k_quote = Some ''ZUSD'',
                         k_altname = Some ''XBTUSD'', k_wsname = Some ''XBT/USD''\<rparr>),
         (''XBTUSD.d'', \<lparr>k_base = Some ''XXBT'', k_quote = Some ''ZUSD'',
                         k_altname = Some ''XBTUSD.d'', k_wsname = None\<rparr>),
         (''ETHUSDT'', \<lparr>k_base = Some ''XETH'', k_quote = Some ''USDT'',
                        k_altname = Some ''ETHUSDT'', k_wsname = Some ''ETH/USDT''\<rparr>),
         (''ADAEUR'', \<lparr>k_base = Some ''ADA'', k_quote = Some ''ZEUR'',
                       k_altname = None, k_wsname = None\<rparr>)]\<rparr>"

text \<open>The results the two fetchers return on these payloads for \<open>[USD, USDT]\<close>.\<close>

definition example_binance_result :: fetch_result where
  "example_binance_result =
     (let btc = \<lparr>symbol = ''BTCUSD'', baseAsset = ''BTC'', quoteAsset = ''USD'',
                  exchange = ''Binance'', kraken_pair = None, wsname = None, altname = None\<rparr>;
          eth = \<lparr>symbol = ''ETHUSDT'', baseAsset = ''ETH'', quoteAsset = ''USDT'',
                  exchange = ''Binance'', kraken_pair = None, wsname = None, altname = None\<rparr>
      in \<lparr>fr_exchange = ''Binance'', results = [(''USD'', [btc]), (''USDT'', [eth])],
           all_pairs = [eth, btc], total = 2\<rparr>)"

definition example_kraken_result :: fetch_result where
  "example_kraken_result =
     (let xbt = \<lparr>symbol = ''XBTUSD'', baseAsset = ''XBT'', quoteAsset = ''USD'',
                  exchange = ''Kraken'', kraken_pair = Some ''XXBTZUSD'',
                  wsname = Some ''XBT/USD'', altname = Some ''XBTUSD''\<rparr>;
          eth = \<lparr>symbol = ''ETHUSDT'', baseAsset = ''ETH'', quoteAsset = ''USDT'',
                  exchange = ''Kraken'', kraken_pair = Some ''ETHUSDT'',
                  wsname = Some ''ETH/USDT'', altname = Some ''ETHUSDT''\<rparr>
      in \<lparr>fr_exchange = ''Kraken'', results = [(''USD'', [xbt]), (''USDT'', [eth])],
           all_pairs = [xbt, eth], total = 2\<rparr>)"

section \<open>Strings and dictionaries: basic facts\<close>

lemma startswith_iff: "startswith s p \<longleftrightarrow> (\<exists>t. s = p @ t)"
  unfolding startswith_def
  by (metis append_eq_conv_conj append_take_drop_id)


lemma dict_get_dict_set:
  "dict_get (dict_set d k v) k' = (if k' = k then Some v else dict_get d k')"
  by (induction d) (auto simp: dict_get_def)

lemma dict_get_fold_init:
  "dict_get (fold (\<lambda>asset d. dict_set d asset (f asset)) qs d0) k =
     (if k \<in> set qs then Some (f k) else dict_get d0 k)"
  by (induction qs arbitrary: d0) (auto simp: dict_get_dict_set)

lemma dict_get_Nil: "dict_get [] k = None"
  by (simp add: dict_get_def)

lemma grouped_init: "grouped qs (init_results qs) []"
  by (simp add: grouped_def init_results_def dict_get_fold_init dict_get_Nil)

lemma grouped_append:
  assumes "grouped qs d ps" and "quoteAsset x \<in> set qs"
  shows "\<exists>d'. dict_append d (quoteAsset x) x = Some d' \<and> grouped qs d' (ps @ [x])"
  using assms
  by (auto simp: grouped_def dict_append_def dict_get_dict_set)

section \<open>The Binance loop\<close>

lemma binance_step_skip:
  "\<not> binance_keep qs e \<Longrightarrow> binance_step qs (d, ps) e = Some st \<Longrightarrow> st = (d, ps)"
  by (auto simp: binance_keep_def split: option.splits if_splits)

lemma binance_step_keep:
  assumes "binance_keep qs e" and "grouped qs d ps" and "binance_step qs (d, ps) e = Some (d', ps')"
  shows "\<exists>p. ps' = ps @ [p] \<and> grouped qs d' ps'
           \<and> b_symbol e = Some (symbol p) \<and> b_baseAsset e = Some (baseAsset p)
           \<and> b_quoteAsset e = Some (quoteAsset p) \<and> exchange p = ''Binance''"
proof -
  from assms(1) obtain q where q: "b_quoteAsset e = Some q" "q \<in> set qs" "b_status e = Some ''TRADING''"
    by (auto simp: binance_keep_def split: option.splits)
  from assms(3) q obtain s b where sb: "b_symbol e = Some s" "b_baseAsset e = Some b"
    by (auto split: option.splits)
  define p where "p = \<lparr>symbol = s, baseAsset = b, quoteAsset = q, exchange = ''Binance'',
      kraken_pair = None, wsname = None, altname = None\<rparr>"
  have qa: "quoteAsset p = q" by (simp add: p_def)
  from grouped_append[OF assms(2), of p] q qa obtain d2 where
    d2: "dict_append d q p = Some d2" "grouped qs d2 (ps @ [p])" by auto
  from assms(3) q sb d2 have "d' = d2" "ps' = ps @ [p]"
    by (auto simp: p_def[symmetric] Let_def)
  with d2 sb q show ?thesis by (intro exI[of _ p]) (simp add: p_def)
qed

lemma binance_loop_char:
  "grouped qs d ps \<Longrightarrow> binance_loop qs (d, ps) es = Some (d', ps') \<Longrightarrow>
     grouped qs d' ps'
     \<and> (\<exists>new. ps' = ps @ new
          \<and> map (\<lambda>p. (Some (symbol p), Some (baseAsset p), Some (quoteAsset p))) new
              = map (\<lambda>e. (b_symbol e, b_baseAsset e, b_quoteAsset e)) (filter (binance_keep qs) es)
          \<and> (\<forall>p \<in> set new. exchange p = ''Binance''))"
proof (induction es arbitrary: d ps)
  case Nil
  then show ?case by simp
next
  case (Cons e es)
  from Cons.prems(2) obtain d1 ps1 where
    st: "binance_step qs (d, ps) e = Some (d1, ps1)" and
    lp: "binance_loop qs (d1, ps1) es = Some (d', ps')"
    by (auto split: option.splits)
  show ?case
  proof (cases "binance_keep qs e")
    case False
    with st have "(d1, ps1) = (d, ps)" using binance_step_skip by blast
    with Cons.IH[OF Cons.prems(1), of ] lp False show ?thesis by simp
  next
    case True
    from binance_step_keep[OF True Cons.prems(1) st] obtain p where
      p: "ps1 = ps @ [p]" "grouped qs d1 ps1" "b_symbol e = Some (symbol p)"
         "b_baseAsset e = Some (baseAsset p)" "b_quoteAsset e = Some (quoteAsset p)"
         "exchange p = ''Binance''" by blast
    from Cons.IH[OF p(2) lp] obtain new where
      n: "grouped qs d' ps'" "ps' = ps1 @ new"
         "map (\<lambda>p. (Some (symbol p), Some (baseAsset p), Some (quoteAsset p))) new
              = map (\<lambda>e. (b_symbol e, b_baseAsset e, b_quoteAsset e)) (filter (binance_keep qs) es)"
         "\<forall>p \<in> set new. exchange p = ''Binance''" by blast
    show ?thesis
      using n p True by (intro conjI exI[of _ "p # new"]) simp_all
  qed
qed

lemma binance_step_total:
  "binance_complete e \<Longrightarrow> grouped qs d ps \<Longrightarrow> \<exists>d' ps'. binance_step qs (d, ps) e = Some (d', ps') \<and> grouped qs d' ps'"
proof -
  assume c: "binance_complete e" and g: "grouped qs d ps"
  from c obtain s b q st where f: "b_symbol e = Some s" "b_baseAsset e = Some b"
     "b_quoteAsset e = Some q" "b_status e = Some st"
    by (auto simp: binance_complete_def)
  show ?thesis
  proof (cases "q \<in> set qs \<and> st = ''TRADING''")
    case False
    with f g show ?thesis by auto
  next
    case True
    define p where "p = \<lparr>symbol = s, baseAsset = b, quoteAsset = q, exchange = ''Binance'',
      kraken_pair = None, wsname = None, altname = None\<rparr>"
    have qa: "quoteAsset p = q" by (simp add: p_def)
    from grouped_append[OF g, of p] True qa obtain d2 where
      d2: "dict_append d q p = Some d2" "grouped qs d2 (ps @ [p])" by auto
    with f True show ?thesis by (auto simp: p_def[symmetric] Let_def)
  qed
qed

lemma binance_loop_total:
  "\<forall>e \<in> set es. binance_complete e \<Longrightarrow> grouped qs d ps \<Longrightarrow> \<exists>st. binance_loop qs (d, ps) es = Some st"
proof (induction es arbitrary: d ps)
  case Nil
  then show ?case by simp
next
  case (Cons e es)
  then obtain d1 ps1 where "binance_step qs (d, ps) e = Some (d1, ps1)" "grouped qs d1 ps1"
    using binance_step_total[of e qs d ps] by auto
  with Cons show ?case by auto
qed

section \<open>The Kraken loop\<close>

lemma kraken_match_find:
  "kraken_match sa n i =
     (case find (\<lambda>(q, names). get_or (k_quote i) '''' \<in> set names) sa of
        None \<Rightarrow> None | Some (q, names) \<Rightarrow> Some (pair_data q n i))"
  by (induction sa) auto

lemma kraken_match_dict_set:
  "\<forall>(q, names) \<in> set d. names = f q \<Longrightarrow>
   kraken_match (dict_set d a (f a)) n i =
     (case kraken_match d n i of
        Some p \<Rightarrow> Some p
      | None \<Rightarrow> if get_or (k_quote i) '''' \<in> set (f a) then Some (pair_data a n i) else None)"
  by (induction d) (auto split: option.splits if_splits)

lemma dict_set_entries:
  "\<forall>(q, names) \<in> set d. names = f q \<Longrightarrow> \<forall>(q, names) \<in> set (dict_set d a (f a)). names = f q"
  by (induction d) (auto split: if_splits)

lemma kraken_match_fold:
  "\<forall>(q, names) \<in> set d. names = f q \<Longrightarrow>
   kraken_match (fold (\<lambda>asset d. dict_set d asset (f asset)) qs d) n i =
     (case kraken_match d n i of
        Some p \<Rightarrow> Some p
      | None \<Rightarrow>
          (case find (\<lambda>q. get_or (k_quote i) '''' \<in> set (f q)) qs of
             None \<Rightarrow> None | Some q \<Rightarrow> Some (pair_data q n i)))"
proof (induction qs arbitrary: d)
  case Nil
  then show ?case by (simp split: option.splits)
next
  case (Cons a qs)
  have e: "\<forall>(q, names) \<in> set (dict_set d a (f a)). names = f q"
    using Cons.prems by (rule dict_set_entries)
  show ?case
    using Cons.IH[OF e] kraken_match_dict_set[OF Cons.prems, of a n i]
    by (simp split: option.splits)
qed

lemma kraken_match_search_assets:
  "kraken_match (build_search_assets qs) n i =
     (case find (\<lambda>q. get_or (k_quote i) '''' \<in> set (kraken_names_of q)) qs of
        None \<Rightarrow> None | Some q \<Rightarrow> Some (pair_data q n i))"
  unfolding build_search_assets_def
  using kraken_match_fold[of "[]" kraken_names_of qs n i] by simp

lemma kraken_normalize_eq:
  "kraken_normalize qs (n, i) =
     (if str_contains ''.d'' n then None else kraken_match (build_search_assets qs) n i)"
  by (simp add: kraken_normalize_def kraken_match_search_assets split: option.splits)

lemma kraken_normalize_quote:
  "kraken_normalize qs item = Some p \<Longrightarrow> quoteAsset p \<in> set qs"
  by (auto simp: kraken_normalize_def pair_data_def split: if_splits option.splits dest: find_Some_iff[THEN iffD1] )

lemma kraken_step_char:
  assumes "grouped qs d ps"
  shows "\<exists>d'. kraken_step (build_search_assets qs) (d, ps) item
                = Some (d', ps @ (case kraken_normalize qs item of None \<Rightarrow> [] | Some p \<Rightarrow> [p]))
              \<and> grouped qs d' (ps @ (case kraken_normalize qs item of None \<Rightarrow> [] | Some p \<Rightarrow> [p]))"
proof (cases item)
  case (Pair n i)
  show ?thesis
  proof (cases "kraken_normalize qs (n, i)")
    case None
    then show ?thesis using assms Pair
      by (auto simp: kraken_normalize_eq split: if_splits)
  next
    case (Some p)
    then have q: "quoteAsset p \<in> set qs" by (rule kraken_normalize_quote)
    from grouped_append[OF assms q] obtain d' where
      "dict_append d (quoteAsset p) p = Some d'" "grouped qs d' (ps @ [p])" by blast
    then show ?thesis using Some Pair
      by (auto simp: kraken_normalize_eq split: if_splits)
  qed
qed

lemma kraken_loop_char:
  "grouped qs d ps \<Longrightarrow>
     \<exists>d'. kraken_loop (build_search_assets qs) (d, ps) items
            = Some (d', ps @ List.map_filter (kraken_normalize qs) items)
          \<and> grouped qs d' (ps @ List.map_filter (kraken_normalize qs) items)"
proof (induction items arbitrary: d ps)
  case Nil
  then show ?case by simp
next
  case (Cons item items)
  from kraken_step_char[OF Cons.prems, of item] obtain d1 where
    s: "kraken_step (build_search_assets qs) (d, ps) item
          = Some (d1, ps @ (case kraken_normalize qs item of None \<Rightarrow> [] | Some p \<Rightarrow> [p]))"
       "grouped qs d1 (ps @ (case kraken_normalize qs item of None \<Rightarrow> [] | Some p \<Rightarrow> [p]))"
    by blast
  from Cons.IH[OF s(2)] s(1) show ?case
    by (auto split: option.splits)
qed

section \<open>The fetchers as a whole\<close>

lemma binance_fetch_Some:
  assumes "binance_fetch_pairs (Inr data) qs = Some r"
  shows "\<exists>es. symbols data = Some es \<and> fr_exchange r = ''Binance''
           \<and> grouped qs (results r) (all_pairs r) \<and> total r = length (all_pairs r)
           \<and> map (\<lambda>p. (Some (symbol p), Some (baseAsset p), Some (quoteAsset p))) (all_pairs r)
               = map (\<lambda>e. (b_symbol e, b_baseAsset e, b_quoteAsset e)) (filter (binance_keep qs) es)
           \<and> (\<forall>p \<in> set (all_pairs r). exchange p = ''Binance'')"
proof -
  from assms obtain es d ps where
    es: "symbols data = Some es" and
    lp: "binance_loop qs (init_results qs, []) es = Some (d, ps)" and
    r: "r = \<lparr>fr_exchange = ''Binance'', results = d, all_pairs = ps, total = length ps\<rparr>"
    by (auto simp: binance_fetch_pairs_def split: option.splits)
  from binance_loop_char[OF grouped_init lp] es r show ?thesis by auto
qed

lemma binance_fetch_total:
  assumes "symbols data = Some es" and "\<forall>e \<in> set es. binance_complete e"
  shows "\<exists>r. binance_fetch_pairs (Inr data) qs = Some r"
proof -
  from binance_loop_total[OF assms(2) grouped_init] obtain st where
    "binance_loop qs (init_results qs, []) es = Some st" by blast
  with assms(1) show ?thesis
    by (cases st) (simp add: binance_fetch_pairs_def)
qed

lemma kraken_fetch_ok:
  assumes "kd_error data = Some []" and "kd_result data = Some items"
  shows "\<exists>r. kraken_fetch_pairs (Inr data) qs = Some r \<and> fr_exchange r = ''Kraken''
           \<and> all_pairs r = List.map_filter (kraken_normalize qs) items
           \<and> grouped qs (results r) (all_pairs r) \<and> total r = length (all_pairs r)"
proof -
  from kraken_loop_char[OF grouped_init, of qs items] obtain d where
    "kraken_loop (build_search_assets qs) (init_results qs, []) items
       = Some (d, List.map_filter (kraken_normalize qs) items)"
    "grouped qs d (List.map_filter (kraken_normalize qs) items)" by auto
  with assms show ?thesis by (simp add: kraken_fetch_pairs_def)
qed

lemma kraken_fetch_Some:
  assumes "kraken_fetch_pairs (Inr data) qs = Some r"
  shows "kd_error data = Some [] \<and> (\<exists>items. kd_result data = Some items)"
  using assms by (auto simp: kraken_fetch_pairs_def split: option.splits if_splits)

lemma kraken_fetch_char:
  assumes "kraken_fetch_pairs (Inr data) qs = Some r"
  shows "\<exists>items. kd_error data = Some [] \<and> kd_result data = Some items
           \<and> fr_exchange r = ''Kraken''
           \<and> all_pairs r = List.map_filter (kraken_normalize qs) items
           \<and> grouped qs (results r) (all_pairs r) \<and> total r = length (all_pairs r)"
proof -
  from kraken_fetch_Some[OF assms] obtain items where
    i: "kd_error data = Some []" "kd_result data = Some items" by blast
  from kraken_fetch_ok[OF i, of qs] assms i show ?thesis by auto
qed

lemma length_filter_sum:
  assumes "finite S" and "\<forall>p \<in> set ps. f p \<in> S"
  shows "(\<Sum>q \<in> S. length (filter (\<lambda>p. f p = q) ps)) = length ps"
  using assms(2)
proof (induction ps)
  case Nil
  then show ?case by simp
next
  case (Cons p ps)
  have "(\<Sum>q \<in> S. length (filter (\<lambda>p. f p = q) (p # ps)))
      = (\<Sum>q \<in> S. (if f p = q then 1 else 0) + length (filter (\<lambda>p. f p = q) ps))"
    by (rule sum.cong) auto
  also have "\<dots> = (\<Sum>q \<in> S. (if f p = q then 1 else 0)) + (\<Sum>q \<in> S. length (filter (\<lambda>p. f p = q) ps))"
    by (simp add: sum.distrib)
  also have "(\<Sum>q \<in> S. (if f p = q then 1 else 0 :: nat)) = 1"
    using assms(1) Cons.prems by simp
  finally show ?case using Cons by simp
qed

lemma grouped_sum:
  assumes "grouped qs d ps"
  shows "(\<Sum>q \<in> set qs. length (dict_get_default d q [])) = length ps"
proof -
  have "(\<Sum>q \<in> set qs. length (dict_get_default d q []))
      = (\<Sum>q \<in> set qs. length (filter (\<lambda>p. quoteAsset p = q) ps))"
    using assms by (intro sum.cong) (auto simp: grouped_def dict_get_default_def)
  also have "\<dots> = length ps"
    using assms by (intro length_filter_sum) (auto simp: grouped_def)
  finally show ?thesis .
qed

lemma grouped_key:
  "grouped qs d ps \<Longrightarrow> dict_get d q = Some l \<Longrightarrow>
     q \<in> set qs \<and> l = filter (\<lambda>p. quoteAsset p = q) ps"
  by (auto simp: grouped_def split: if_splits)

lemma str_contains_iff: "str_contains sub s \<longleftrightarrow> (\<exists>pre post. s = pre @ sub @ post)"
proof (induction s)
  case Nil
  then show ?case by auto
next
  case (Cons c cs)
  show ?case
  proof
    assume "str_contains sub (c # cs)"
    then consider "startswith (c # cs) sub" | "str_contains sub cs" by auto
    then show "\<exists>pre post. c # cs = pre @ sub @ post"
    proof cases
      case 1
      then obtain t where "c # cs = sub @ t" by (auto simp: startswith_iff)
      then have "c # cs = [] @ sub @ t" by simp
      then show ?thesis by blast
    next
      case 2
      with Cons obtain pre post where "cs = pre @ sub @ post" by auto
      then have "c # cs = (c # pre) @ sub @ post" by simp
      then show ?thesis by blast
    qed
  next
    assume "\<exists>pre post. c # cs = pre @ sub @ post"
    then obtain pre post where e: "c # cs = pre @ sub @ post" by blast
    show "str_contains sub (c # cs)"
    proof (cases pre)
      case Nil
      with e have "startswith (c # cs) sub" unfolding startswith_iff by auto
      then show ?thesis by simp
    next
      case (Cons a pre')
      with e have "cs = pre' @ sub @ post" by simp
      with Cons.IH show ?thesis by auto
    qed
  qed
qed

lemma str_replace_char_remove: "str_replace_char c '''' s = filter (\<lambda>x. x \<noteq> c) s"
  by (induction s) (auto simp: str_replace_char_def)


lemma kraken_normalize_keep:
  "kraken_normalize qs item \<noteq> None \<longleftrightarrow> kraken_keep qs item"
proof -
  let ?P = "\<lambda>q. get_or (k_quote (snd item)) '''' \<in> set (kraken_names_of q)"
  have "(find ?P qs = None) = (\<not> list_ex ?P qs)"
    by (auto simp: find_None_iff list_ex_iff)
  then show ?thesis
    by (cases "find ?P qs") (simp_all add: kraken_normalize_def kraken_keep_def)
qed

lemma grouped_key_mem:
  assumes "grouped qs d ps" and "dict_get d q = Some l" and "p \<in> set l"
  shows "quoteAsset p = q \<and> q \<in> set qs"
proof -
  from grouped_key[OF assms(1,2)] have "q \<in> set qs" "l = filter (\<lambda>p. quoteAsset p = q) ps"
    by simp_all
  with assms(3) show ?thesis by simp
qed

lemma length_map_filter:
  "length (List.map_filter f xs) = length (filter (\<lambda>x. f x \<noteq> None) xs)"
  by (induction xs) (auto split: option.splits)

section \<open>Common pairs: finiteness and cardinalities\<close>

lemma pairs_set_eq: "pairs_set r = normalized ` set (all_pairs r)"
proof -
  have "fold (\<lambda>pair s. insert (normalized pair) s) ps S = normalized ` set ps \<union> S" for ps S
    by (induction ps arbitrary: S) auto
  then show ?thesis by (simp add: pairs_set_def)
qed

lemma finite_pairs_set: "finite (pairs_set r)"
  by (simp add: pairs_set_eq)

lemma dict_set_mem:
  "(k', v') \<in> set (dict_set d k v) \<Longrightarrow> (k', v') \<in> set d \<or> (k', v') = (k, v)"
  by (induction d) (auto split: if_splits)

lemma exchanges_pairs_finite_gen:
  "\<forall>(e, s) \<in> set d. finite s \<Longrightarrow>
   \<forall>(e, s) \<in> set (fold (\<lambda>r d. case r of None \<Rightarrow> d
        | Some res \<Rightarrow> dict_set d (fr_exchange res) (pairs_set res)) rs d). finite s"
proof (induction rs arbitrary: d)
  case Nil
  then show ?case by simp
next
  case (Cons r rs)
  show ?case
  proof (cases r)
    case None
    with Cons show ?thesis by simp
  next
    case (Some res)
    have "\<forall>(e, s) \<in> set (dict_set d (fr_exchange res) (pairs_set res)). finite s"
    proof (clarify)
      fix e s assume "(e, s) \<in> set (dict_set d (fr_exchange res) (pairs_set res))"
      from dict_set_mem[OF this] Cons.prems show "finite s"
        by (auto simp: finite_pairs_set)
    qed
    from Cons.IH[OF this] Some show ?thesis by simp
  qed
qed

lemma exchanges_pairs_finite: "(e, s) \<in> set (exchanges_pairs rs) \<Longrightarrow> finite s"
  using exchanges_pairs_finite_gen[of "[]" rs] by (auto simp: exchanges_pairs_def)

lemma card_inter_diff: "finite A \<Longrightarrow> card (A \<inter> B) + card (A - B) = card A"
  by (metis Diff_Diff_Int Diff_subset card_Diff_subset_Int card_mono finite_Diff
      le_add_diff_inverse)

section \<open>Evaluation and base normalisation helpers\<close>

lemmas kraken_eval_defs =
  kraken_fetch_pairs_def build_search_assets_def init_results_def kraken_names_of_def
  asset_map_def dict_get_def pair_data_def tv_symbol_def base_clean_def startswith_def
  get_or_def str_replace_char_def dict_append_def




section \<open>Kraken pairs and their raw items\<close>

lemma in_map_filter: "p \<in> set (List.map_filter f xs) \<longleftrightarrow> (\<exists>x \<in> set xs. f x = Some p)"
  by (induction xs) (auto split: option.splits)

lemma kraken_normalize_Some:
  assumes "kraken_normalize qs (n, i) = Some p"
  shows "\<not> str_contains ''.d'' n \<and> p = pair_data (quoteAsset p) n i
         \<and> find (\<lambda>q. get_or (k_quote i) '''' \<in> set (kraken_names_of q)) qs = Some (quoteAsset p)"
  using assms
  by (auto simp: kraken_normalize_def pair_data_def split: if_splits option.splits)

lemma kraken_all_pairs_origin:
  assumes "kraken_fetch_pairs (Inr data) qs = Some r" and "p \<in> set (all_pairs r)"
  shows "\<exists>items n i. kd_result data = Some items \<and> (n, i) \<in> set items
           \<and> \<not> str_contains ''.d'' n \<and> p = pair_data (quoteAsset p) n i
           \<and> find (\<lambda>q. get_or (k_quote i) '''' \<in> set (kraken_names_of q)) qs = Some (quoteAsset p)"
proof -
  from kraken_fetch_char[OF assms(1)] obtain items where
    k: "kd_result data = Some items" "all_pairs r = List.map_filter (kraken_normalize qs) items"
    by blast
  with assms(2) obtain item where it: "item \<in> set items" "kraken_normalize qs item = Some p"
    by (auto simp: in_map_filter)
  obtain n i where ni: "item = (n, i)" by (cases item)
  from kraken_normalize_Some[of qs n i p] it ni k(1) show ?thesis by blast
qed

lemma kraken_loop_skip_d:
  "kraken_loop sa st (filter (\<lambda>(m, i). \<not> str_contains ''.d'' m) items) = kraken_loop sa st items"
proof (induction items arbitrary: st)
  case Nil
  then show ?case by simp
next
  case (Cons item items)
  obtain m i where mi: "item = (m, i)" by (cases item)
  obtain d ps where st: "st = (d, ps)" by (cases st)
  show ?case using Cons mi st by (simp split: option.splits)
qed

lemma kraken_fetch_skip_d:
  assumes "kd_result data = Some items"
  shows "kraken_fetch_pairs
           (Inr (data\<lparr>kd_result := Some (filter (\<lambda>(m, i). \<not> str_contains ''.d'' m) items)\<rparr>)) qs
         = kraken_fetch_pairs (Inr data) qs"
proof (cases "kd_error data")
  case None
  then show ?thesis by (simp add: kraken_fetch_pairs_def)
next
  case (Some errs)
  show ?thesis
    by (cases "errs = []") (simp_all add: kraken_fetch_pairs_def Some assms kraken_loop_skip_d)
qed

lemma kraken_pair_pair_data: "kraken_pair (pair_data q n i) = Some n"
  by (simp add: pair_data_def)

lemma symbol_pair_data: "symbol (pair_data q n i) = tv_symbol n i"
  by (simp add: pair_data_def)

lemma tv_symbol_cases:
  "(\<forall>w. k_wsname i = Some w \<and> w \<noteq> [] \<longrightarrow> tv_symbol n i = filter (\<lambda>c. c \<noteq> CHR ''/'') w)
   \<and> (k_wsname i = None \<or> k_wsname i = Some [] \<longrightarrow>
        (\<forall>a. k_altname i = Some a \<longrightarrow> tv_symbol n i = a)
        \<and> (k_altname i = None \<longrightarrow> tv_symbol n i = n))"
  by (auto simp: tv_symbol_def get_or_def str_replace_char_remove Let_def)


section \<open>The example payloads evaluated\<close>

lemma upper_Binance: "str_upper ''Binance'' = ''BINANCE''"
  by code_simp

lemma upper_Kraken: "str_upper ''Kraken'' = ''KRAKEN''"
  by code_simp

lemma example_binance_fetch:
  "binance_fetch_pairs (Inr example_binance_data) [''USD'', ''USDT''] = Some example_binance_result"
  by (simp add: example_binance_data_def example_binance_result_def binance_fetch_pairs_def
      init_results_def dict_get_def dict_append_def Let_def)

lemma example_kraken_fetch:
  "kraken_fetch_pairs (Inr example_kraken_data) [''USD'', ''USDT''] = Some example_kraken_result"
  by (simp add: example_kraken_data_def example_kraken_result_def kraken_eval_defs Let_def)

lemma example_kraken_d: "str_contains ''.d'' ''XBTUSD.d''"
  by (simp add: startswith_def)

lemma example_fetch_all:
  "fetch_all [''binance'', ''kraken''] (Inr example_binance_data) (Inr example_kraken_data)
     [''USD'', ''USDT''] = [Some example_binance_result, Some example_kraken_result]"
  by (simp add: fetch_all_def example_binance_fetch example_kraken_fetch)

lemma example_pairs_sets:
  "pairs_set example_binance_result = {''ETH/USDT'', ''BTC/USD''}"
  "pairs_set example_kraken_result = {''XBT/USD'', ''ETH/USDT''}"
  by (auto simp: pairs_set_def normalized_def example_binance_result_def
      example_kraken_result_def Let_def)

lemma example_binance_lines:
  "tv_lines [''USD'', ''USDT''] example_binance_result = [''BINANCE:BTCUSD'', ''BINANCE:ETHUSDT'']"
  by (simp add: tv_lines_def tv_line_def dict_get_default_def dict_get_def
      example_binance_result_def Let_def upper_Binance)

section \<open>TradingView lines\<close>

lemma upper_exchange:
  assumes "binance_fetch_pairs (Inr bd) qs = Some r \<or> kraken_fetch_pairs (Inr kd) qs = Some r"
  shows "grouped qs (results r) (all_pairs r)
         \<and> (str_upper (fr_exchange r) = ''BINANCE'' \<or> str_upper (fr_exchange r) = ''KRAKEN'')"
  using assms
proof
  assume "binance_fetch_pairs (Inr bd) qs = Some r"
  from binance_fetch_Some[OF this] show ?thesis by (auto simp: upper_Binance)
next
  assume "kraken_fetch_pairs (Inr kd) qs = Some r"
  from kraken_fetch_char[OF this] show ?thesis by (auto simp: upper_Kraken)
qed

lemma tv_lines_grouped:
  assumes "grouped qs (results r) (all_pairs r)"
  shows "tv_lines qs r =
     concat (map (\<lambda>q. map (tv_line (str_upper (fr_exchange r)))
                    (sort_key symbol (filter (\<lambda>p. quoteAsset p = q) (all_pairs r)))) qs)"
proof -
  have "dict_get_default (results r) q [] = filter (\<lambda>p. quoteAsset p = q) (all_pairs r)"
    if "q \<in> set qs" for q
    using assms that by (simp add: grouped_def dict_get_default_def)
  then show ?thesis
    unfolding tv_lines_def Let_def
    by (intro arg_cong[where f = concat] map_cong) simp_all
qed

lemma filter_mset_disj:
  "\<forall>x \<in># M. \<not> (P x \<and> Q x) \<Longrightarrow>
     filter_mset P M + filter_mset Q M = filter_mset (\<lambda>x. P x \<or> Q x) M"
  by (induction M) auto

lemma mset_groups:
  "distinct qs \<Longrightarrow>
     mset (concat (map (\<lambda>q. map f (sort_key k (filter (\<lambda>p. h p = q) ps))) qs))
       = image_mset f (filter_mset (\<lambda>p. h p \<in> set qs) (mset ps))"
proof (induction qs)
  case Nil
  then show ?case by simp
next
  case (Cons q qs)
  have d: "\<forall>x \<in># mset ps. \<not> (h x = q \<and> h x \<in> set qs)" using Cons.prems by auto
  have "mset (concat (map (\<lambda>q. map f (sort_key k (filter (\<lambda>p. h p = q) ps))) (q # qs)))
      = image_mset f (filter_mset (\<lambda>p. h p = q) (mset ps))
        + image_mset f (filter_mset (\<lambda>p. h p \<in> set qs) (mset ps))"
    using Cons by simp
  also have "\<dots> = image_mset f (filter_mset (\<lambda>p. h p = q \<or> h p \<in> set qs) (mset ps))"
    using filter_mset_disj[OF d] by (metis image_mset_union)
  finally show ?case by (simp add: disj_commute eq_commute[of q])
qed

lemma mset_tv_lines:
  assumes "grouped qs (results r) (all_pairs r)" and "distinct qs"
  shows "mset (tv_lines qs r) = image_mset (tv_line (str_upper (fr_exchange r))) (mset (all_pairs r))"
proof -
  have "filter_mset (\<lambda>p. quoteAsset p \<in> set qs) (mset (all_pairs r)) = mset (all_pairs r)"
    using assms(1) by (intro filter_mset_eq_conv[THEN iffD2]) (auto simp: grouped_def)
  then show ?thesis
    by (simp add: tv_lines_grouped[OF assms(1)] mset_groups[OF assms(2)])
qed

lemma tv_lines_single:
  assumes "grouped [q] (results r) (all_pairs r)"
  shows "tv_lines [q] r = map (tv_line (str_upper (fr_exchange r))) (sort_key symbol (all_pairs r))"
proof -
  have "filter (\<lambda>p. quoteAsset p = q) (all_pairs r) = all_pairs r"
    using assms by (auto simp: grouped_def intro: filter_True)
  then show ?thesis by (simp add: tv_lines_grouped[OF assms])
qed

lemma tv_combined_two:
  "tv_combined qs [x, y] =
     Some ((case x of None \<Rightarrow> [] | Some res \<Rightarrow> tv_lines qs res)
           @ (case y of None \<Rightarrow> [] | Some res \<Rightarrow> tv_lines qs res))"
  by (simp add: tv_combined_def)

section \<open>Claims\<close>




text \<open>
  Claim C2 (as amended). For the raw Kraken entry with base \<open>XXBT\<close>, quote \<open>ZUSD\<close> and wsname
  \<open>BTC/USD\<close>, under any pair name without \<open>.d\<close> and any altname, requested under \<open>USD\<close>, the
  fetch succeeds with exactly one pair: symbol \<open>BTCUSD\<close>, baseAsset \<open>XBT\<close> (the raw base
  without its leading \<open>X\<close>), quoteAsset \<open>USD\<close>; the pair is stored under \<open>USD\<close> and the total is 1.
\<close>

theorem kraken_example:
  assumes "\<not> str_contains ''.d'' n"
  shows "map_option (\<lambda>r. (map (\<lambda>p. (symbol p, baseAsset p, quoteAsset p)) (all_pairs r),
                          map (\<lambda>(q, ps). (q, map (\<lambda>p. (symbol p, baseAsset p, quoteAsset p)) ps)) (results r),
                          total r))
           (kraken_fetch_pairs
              (Inr \<lparr>kd_error = Some [],
                    kd_result = Some [(n, \<lparr>k_base = Some ''XXBT'', k_quote = Some ''ZUSD'',
                                           k_altname = a, k_wsname = Some ''BTC/USD''\<rparr>)]\<rparr>)
              [''USD''])
         = Some ([(''BTCUSD'', ''XBT'', ''USD'')], [(''USD'', [(''BTCUSD'', ''XBT'', ''USD'')])], 1)"
  using assms by (simp add: kraken_eval_defs)

theorem kraken_example_witness:
  "\<not> str_contains ''.d'' ''XXBTZUSD'' \<and>
   map_option (\<lambda>r. (map (\<lambda>p. (symbol p, baseAsset p, quoteAsset p)) (all_pairs r),
                          map (\<lambda>(q, ps). (q, map (\<lambda>p. (symbol p, baseAsset p, quoteAsset p)) ps)) (results r),
                          total r))
           (kraken_fetch_pairs
              (Inr \<lparr>kd_error = Some [],
                    kd_result = Some [(''XXBTZUSD'', \<lparr>k_base = Some ''XXBT'', k_quote = Some ''ZUSD'',
                                           k_altname = Some ''XBTUSD'', k_wsname = Some ''BTC/USD''\<rparr>)]\<rparr>)
              [''USD''])
         = Some ([(''BTCUSD'', ''XBT'', ''USD'')], [(''USD'', [(''BTCUSD'', ''XBT'', ''USD'')])], 1)"
proof -
  have h: "\<not> str_contains ''.d'' ''XXBTZUSD''" by (simp add: startswith_def)
  show ?thesis using h kraken_example[OF h, of "Some ''XBTUSD''"] by simp
qed

text \<open>
  Claim C2 as stated expects baseAsset \<open>BTC\<close>; the code yields \<open>XBT\<close>, so the list of base
  assets of the result is not \<open>[BTC]\<close>.
\<close>

theorem kraken_example_base_counterexample:
  "map_option (\<lambda>r. map baseAsset (all_pairs r))
     (kraken_fetch_pairs
        (Inr \<lparr>kd_error = Some [],
              kd_result = Some [(''XXBTZUSD'', \<lparr>k_base = Some ''XXBT'', k_quote = Some ''ZUSD'',
                                     k_altname = Some ''XBTUSD'', k_wsname = Some ''BTC/USD''\<rparr>)]\<rparr>)
        [''USD''])
     \<noteq> Some [''BTC'']"
  by (simp add: kraken_eval_defs)




text \<open>
  Claim C4. For every pair of a successful Kraken fetch, with the raw item it comes from: when
  \<open>wsname\<close> is present and not empty the symbol is \<open>wsname\<close> without its slashes; otherwise
  it is \<open>altname\<close> when present, and the raw pair name when \<open>altname\<close> is absent.
\<close>

theorem kraken_symbol_derivation:
  assumes "kraken_fetch_pairs (Inr data) qs = Some r" and "p \<in> set (all_pairs r)"
  shows "\<exists>items n i. kd_result data = Some items \<and> (n, i) \<in> set items
           \<and> kraken_pair p = Some n
           \<and> (\<forall>w. k_wsname i = Some w \<and> w \<noteq> [] \<longrightarrow> symbol p = filter (\<lambda>c. c \<noteq> CHR ''/'') w)
           \<and> (k_wsname i = None \<or> k_wsname i = Some [] \<longrightarrow>
                (\<forall>a. k_altname i = Some a \<longrightarrow> symbol p = a)
                \<and> (k_altname i = None \<longrightarrow> symbol p = n))"
proof -
  from kraken_all_pairs_origin[OF assms] obtain items n i where
    o: "kd_result data = Some items" "(n, i) \<in> set items" "p = pair_data (quoteAsset p) n i"
    by blast
  from o(3) have kp: "kraken_pair p = Some n" using kraken_pair_pair_data by metis
  from o(3) have sy: "symbol p = tv_symbol n i" using symbol_pair_data by metis
  note c = tv_symbol_cases[of i n, unfolded sy[symmetric]]
  have "kd_result data = Some items \<and> (n, i) \<in> set items
           \<and> kraken_pair p = Some n
           \<and> (\<forall>w. k_wsname i = Some w \<and> w \<noteq> [] \<longrightarrow> symbol p = filter (\<lambda>c. c \<noteq> CHR ''/'') w)
           \<and> (k_wsname i = None \<or> k_wsname i = Some [] \<longrightarrow>
                (\<forall>a. k_altname i = Some a \<longrightarrow> symbol p = a)
                \<and> (k_altname i = None \<longrightarrow> symbol p = n))"
    using o(1) o(2) kp c[THEN conjunct1] c[THEN conjunct2] by (intro conjI)
  then show ?thesis
    by (intro exI[of _ items] exI[of _ n] exI[of _ i])
qed

theorem kraken_symbol_derivation_witness:
  "\<exists>r p. kraken_fetch_pairs (Inr example_kraken_data) [''USD'', ''USDT''] = Some r
     \<and> p \<in> set (all_pairs r) \<and> symbol p = ''XBTUSD''
     \<and> (\<exists>items n i. kd_result example_kraken_data = Some items \<and> (n, i) \<in> set items
           \<and> kraken_pair p = Some n
           \<and> (\<forall>w. k_wsname i = Some w \<and> w \<noteq> [] \<longrightarrow> symbol p = filter (\<lambda>c. c \<noteq> CHR ''/'') w)
           \<and> (k_wsname i = None \<or> k_wsname i = Some [] \<longrightarrow>
                (\<forall>a. k_altname i = Some a \<longrightarrow> symbol p = a)
                \<and> (k_altname i = None \<longrightarrow> symbol p = n)))"
proof -
  define p where "p = hd (all_pairs example_kraken_result)"
  have m: "p \<in> set (all_pairs example_kraken_result)"
    by (simp add: p_def example_kraken_result_def Let_def)
  have s: "symbol p = ''XBTUSD''"
    by (simp add: p_def example_kraken_result_def Let_def)
  note t = kraken_symbol_derivation[OF example_kraken_fetch m]
  show ?thesis
    by (rule exI[of _ example_kraken_result], rule exI[of _ p])
       (intro conjI example_kraken_fetch m s t)
qed

text \<open>
  Claim C5. No pair of a successful Kraken fetch, in the flat list or under any asset key,
  comes from a raw pair name containing \<open>.d\<close>, and the fetch returns the same result when
  every such item is removed from the payload.
\<close>

theorem kraken_skips_d:
  assumes "kraken_fetch_pairs (Inr data) qs = Some r" and "str_contains ''.d'' n"
  shows "(\<forall>p \<in> set (all_pairs r). kraken_pair p \<noteq> Some n)
         \<and> (\<forall>q ps. dict_get (results r) q = Some ps \<longrightarrow> (\<forall>p \<in> set ps. kraken_pair p \<noteq> Some n))
         \<and> kraken_fetch_pairs
             (Inr (data\<lparr>kd_result :=
                map_option (filter (\<lambda>(m, i). \<not> str_contains ''.d'' m)) (kd_result data)\<rparr>)) qs
           = Some r"
proof (intro conjI)
  show a: "\<forall>p \<in> set (all_pairs r). kraken_pair p \<noteq> Some n"
  proof
    fix p assume "p \<in> set (all_pairs r)"
    from kraken_all_pairs_origin[OF assms(1) this] obtain m i where
      mi: "\<not> str_contains ''.d'' m" "p = pair_data (quoteAsset p) m i" by blast
    from mi(2) have "kraken_pair p = Some m" using kraken_pair_pair_data by metis
    moreover from mi(1) assms(2) have "m \<noteq> n" by auto
    ultimately show "kraken_pair p \<noteq> Some n" by simp
  qed
  from kraken_fetch_char[OF assms(1)] have g: "grouped qs (results r) (all_pairs r)" by blast
  show "\<forall>q ps. dict_get (results r) q = Some ps \<longrightarrow> (\<forall>p \<in> set ps. kraken_pair p \<noteq> Some n)"
  proof (intro allI impI ballI)
    fix q ps p assume b: "dict_get (results r) q = Some ps" "p \<in> set ps"
    from grouped_key[OF g b(1)] have "ps = filter (\<lambda>p. quoteAsset p = q) (all_pairs r)"
      by simp
    with b(2) have "p \<in> set (all_pairs r)" by simp
    with a show "kraken_pair p \<noteq> Some n" by blast
  qed
  from kraken_fetch_Some[OF assms(1)] obtain items where
    it: "kd_result data = Some items" by blast
  show "kraken_fetch_pairs
             (Inr (data\<lparr>kd_result :=
                map_option (filter (\<lambda>(m, i). \<not> str_contains ''.d'' m)) (kd_result data)\<rparr>)) qs
           = Some r"
    using kraken_fetch_skip_d[OF it, of qs] assms(1) it by simp
qed

theorem kraken_skips_d_witness:
  "str_contains ''.d'' ''XBTUSD.d''
   \<and> (\<exists>r. kraken_fetch_pairs (Inr example_kraken_data) [''USD'', ''USDT''] = Some r
        \<and> (\<forall>p \<in> set (all_pairs r). kraken_pair p \<noteq> Some ''XBTUSD.d'')
        \<and> (\<forall>q ps. dict_get (results r) q = Some ps \<longrightarrow>
              (\<forall>p \<in> set ps. kraken_pair p \<noteq> Some ''XBTUSD.d''))
        \<and> kraken_fetch_pairs
             (Inr (example_kraken_data\<lparr>kd_result :=
                map_option (filter (\<lambda>(m, i). \<not> str_contains ''.d'' m))
                  (kd_result example_kraken_data)\<rparr>)) [''USD'', ''USDT'']
           = Some r)"
proof -
  note t = kraken_skips_d[OF example_kraken_fetch example_kraken_d]
  show ?thesis
    by (rule conjI[OF example_kraken_d], rule exI[of _ example_kraken_result])
       (intro conjI example_kraken_fetch t[THEN conjunct1] t[THEN conjunct2, THEN conjunct1]
          t[THEN conjunct2, THEN conjunct2])
qed

text \<open>
  Claim C6. A successful Binance fetch returns, in feed order, exactly the records whose raw
  \<open>quoteAsset\<close> is requested and whose \<open>status\<close> is \<open>TRADING\<close>; the symbol, base asset and
  quote asset of each returned pair are those of the raw record, verbatim, and the exchange is
  \<open>Binance\<close>. When every record carries all four keys the fetch succeeds.
\<close>

theorem binance_fetch_spec:
  "(binance_fetch_pairs (Inr data) qs = Some r \<longrightarrow>
      (\<exists>es. symbols data = Some es
         \<and> map (\<lambda>p. (Some (symbol p), Some (baseAsset p), Some (quoteAsset p))) (all_pairs r)
             = map (\<lambda>e. (b_symbol e, b_baseAsset e, b_quoteAsset e)) (filter (binance_keep qs) es)
         \<and> (\<forall>p \<in> set (all_pairs r). exchange p = ''Binance'')))
   \<and> (symbols data = Some entries \<and> (\<forall>e \<in> set entries. binance_complete e) \<longrightarrow>
        (\<exists>r'. binance_fetch_pairs (Inr data) qs = Some r'))"
proof (intro conjI impI)
  assume "binance_fetch_pairs (Inr data) qs = Some r"
  from binance_fetch_Some[OF this]
  show "\<exists>es. symbols data = Some es
         \<and> map (\<lambda>p. (Some (symbol p), Some (baseAsset p), Some (quoteAsset p))) (all_pairs r)
             = map (\<lambda>e. (b_symbol e, b_baseAsset e, b_quoteAsset e)) (filter (binance_keep qs) es)
         \<and> (\<forall>p \<in> set (all_pairs r). exchange p = ''Binance'')"
    by blast
next
  assume "symbols data = Some entries \<and> (\<forall>e \<in> set entries. binance_complete e)"
  then show "\<exists>r'. binance_fetch_pairs (Inr data) qs = Some r'"
    using binance_fetch_total by blast
qed

text \<open>
  The example of the specification: the \<open>ETHUSDT\<close> record, requested under \<open>USDT\<close>, passes
  through unchanged; a record quoted in \<open>BTC\<close> and a record that is not trading are dropped.
\<close>

theorem binance_fetch_spec_witness:
  "map_option (\<lambda>r. map (\<lambda>p. (symbol p, baseAsset p, quoteAsset p, exchange p)) (all_pairs r))
     (binance_fetch_pairs
        (Inr \<lparr>symbols = Some
           [\<lparr>b_symbol = Some ''ETHUSDT'', b_baseAsset = Some ''ETH'',
             b_quoteAsset = Some ''USDT'', b_status = Some ''TRADING''\<rparr>,
            \<lparr>b_symbol = Some ''ETHBTC'', b_baseAsset = Some ''ETH'',
             b_quoteAsset = Some ''BTC'', b_status = Some ''TRADING''\<rparr>,
            \<lparr>b_symbol = Some ''LUNAUSDT'', b_baseAsset = Some ''LUNA'',
             b_quoteAsset = Some ''USDT'', b_status = Some ''BREAK''\<rparr>]\<rparr>)
        [''USDT''])
   = Some [(''ETHUSDT'', ''ETH'', ''USDT'', ''Binance'')]"
proof -
  define es where "es =
           [\<lparr>b_symbol = Some ''ETHUSDT'', b_baseAsset = Some ''ETH'',
             b_quoteAsset = Some ''USDT'', b_status = Some ''TRADING''\<rparr>,
            \<lparr>b_symbol = Some ''ETHBTC'', b_baseAsset = Some ''ETH'',
             b_quoteAsset = Some ''BTC'', b_status = Some ''TRADING''\<rparr>,
            \<lparr>b_symbol = Some ''LUNAUSDT'', b_baseAsset = Some ''LUNA'',
             b_quoteAsset = Some ''USDT'', b_status = Some ''BREAK''\<rparr>]"
  define data where "data = \<lparr>symbols = Some es\<rparr>"
  have c: "symbols data = Some es \<and> (\<forall>e \<in> set es. binance_complete e)"
    by (simp add: data_def es_def binance_complete_def)
  from binance_fetch_spec[of data "[''USDT'']" undefined es] c
  obtain r where r: "binance_fetch_pairs (Inr data) [''USDT''] = Some r" by blast
  from binance_fetch_spec[of data "[''USDT'']" r es] r
  have m: "map (\<lambda>p. (Some (symbol p), Some (baseAsset p), Some (quoteAsset p))) (all_pairs r)
             = map (\<lambda>e. (b_symbol e, b_baseAsset e, b_quoteAsset e)) (filter (binance_keep [''USDT'']) es)"
     and x: "\<forall>p \<in> set (all_pairs r). exchange p = ''Binance''"
    using c by auto
  have f: "filter (binance_keep [''USDT'']) es = [es ! 0]"
    by (simp add: es_def binance_keep_def)
  from m f obtain p where p: "all_pairs r = [p]" "symbol p = ''ETHUSDT''" "baseAsset p = ''ETH''"
      "quoteAsset p = ''USDT''"
    by (auto simp: es_def)
  with x have "exchange p = ''Binance''" by simp
  with p r show ?thesis unfolding data_def es_def by simp
qed



text \<open>
  Claim C8. Whenever the common-pairs analysis runs, the sets it reports satisfy
  \<open>|common| + |only_first| = |first|\<close> and \<open>|common| + |only_second| = |second|\<close>; for two
  results of different exchanges the sets are those of the two results.
\<close>

theorem common_pairs_card:
  "(common_pairs all_results = Some (common, only_first, only_second) \<longrightarrow>
      (\<exists>e0 s0 e1 s1. exchanges_pairs all_results = [(e0, s0), (e1, s1)]
         \<and> common = s0 \<inter> s1 \<and> only_first = s0 - s1 \<and> only_second = s1 - s0
         \<and> card common + card only_first = card s0
         \<and> card common + card only_second = card s1))
   \<and> (fr_exchange r1 \<noteq> fr_exchange r2 \<longrightarrow>
        common_pairs [Some r1, Some r2]
          = Some (pairs_set r1 \<inter> pairs_set r2, pairs_set r1 - pairs_set r2,
                  pairs_set r2 - pairs_set r1)
        \<and> card (pairs_set r1 \<inter> pairs_set r2) + card (pairs_set r1 - pairs_set r2)
            = card (pairs_set r1)
        \<and> card (pairs_set r1 \<inter> pairs_set r2) + card (pairs_set r2 - pairs_set r1)
            = card (pairs_set r2))"
proof (intro conjI impI)
  assume a: "common_pairs all_results = Some (common, only_first, only_second)"
  then obtain e0 s0 e1 s1 where
    ep: "exchanges_pairs all_results = [(e0, s0), (e1, s1)]"
    by (auto simp: common_pairs_def split: if_splits list.splits)
  with a have c: "common = s0 \<inter> s1" "only_first = s0 - s1" "only_second = s1 - s0"
    by (auto simp: common_pairs_def split: if_splits)
  from ep have f: "finite s0" "finite s1"
    using exchanges_pairs_finite[of e0 s0 all_results] exchanges_pairs_finite[of e1 s1 all_results]
    by auto
  have "card (s0 \<inter> s1) + card (s0 - s1) = card s0" using f(1) by (rule card_inter_diff)
  moreover have "card (s0 \<inter> s1) + card (s1 - s0) = card s1"
    using card_inter_diff[OF f(2), of s0] by (simp add: Int_commute)
  ultimately show "\<exists>e0 s0 e1 s1. exchanges_pairs all_results = [(e0, s0), (e1, s1)]
         \<and> common = s0 \<inter> s1 \<and> only_first = s0 - s1 \<and> only_second = s1 - s0
         \<and> card common + card only_first = card s0
         \<and> card common + card only_second = card s1"
    using ep c by blast
next
  assume "fr_exchange r1 \<noteq> fr_exchange r2"
  then show "common_pairs [Some r1, Some r2]
          = Some (pairs_set r1 \<inter> pairs_set r2, pairs_set r1 - pairs_set r2,
                  pairs_set r2 - pairs_set r1)"
    by (simp add: common_pairs_def exchanges_pairs_def)
next
  show "card (pairs_set r1 \<inter> pairs_set r2) + card (pairs_set r1 - pairs_set r2)
            = card (pairs_set r1)"
    using finite_pairs_set by (rule card_inter_diff)
next
  show "card (pairs_set r1 \<inter> pairs_set r2) + card (pairs_set r2 - pairs_set r1)
            = card (pairs_set r2)"
    using card_inter_diff[OF finite_pairs_set, of r2 "pairs_set r1"] by (simp add: Int_commute)
qed

theorem common_pairs_card_witness:
  "\<exists>c f s. common_pairs
       (fetch_all [''binance'', ''kraken''] (Inr example_binance_data) (Inr example_kraken_data)
          [''USD'', ''USDT'']) = Some (c, f, s)
     \<and> c = {''ETH/USDT''} \<and> f = {''BTC/USD''} \<and> s = {''XBT/USD''}
     \<and> card c + card f = card (pairs_set example_binance_result)
     \<and> card c + card s = card (pairs_set example_kraken_result)"
proof -
  have ne: "fr_exchange example_binance_result \<noteq> fr_exchange example_kraken_result"
    by (simp add: example_binance_result_def example_kraken_result_def Let_def)
  note t = common_pairs_card[of undefined undefined undefined undefined
      example_binance_result example_kraken_result, THEN conjunct2, THEN mp, OF ne]
  have i: "pairs_set example_binance_result \<inter> pairs_set example_kraken_result = {''ETH/USDT''}"
    by (auto simp: example_pairs_sets)
  have f: "pairs_set example_binance_result - pairs_set example_kraken_result = {''BTC/USD''}"
    by (auto simp: example_pairs_sets)
  have s: "pairs_set example_kraken_result - pairs_set example_binance_result = {''XBT/USD''}"
    by (auto simp: example_pairs_sets)
  from t show ?thesis
    unfolding example_fetch_all i f s by blast
qed

text \<open>
  Claim C10. For a successful fetch of either exchange: the total is the length of the flat
  list, which is the sum over the requested assets of the lengths of their lists; every pair
  under a key has that key as \<open>quoteAsset\<close>; and the flat list has one entry for each kept
  raw record.
\<close>

theorem fetch_result_counts:
  "(binance_fetch_pairs (Inr bdata) qs = Some r \<longrightarrow>
      total r = length (all_pairs r)
      \<and> length (all_pairs r) = (\<Sum>q \<in> set qs. length (dict_get_default (results r) q []))
      \<and> (\<forall>q ps p. dict_get (results r) q = Some ps \<and> p \<in> set ps \<longrightarrow> quoteAsset p = q \<and> q \<in> set qs)
      \<and> (\<exists>es. symbols bdata = Some es
            \<and> length (all_pairs r) = length (filter (binance_keep qs) es)))
   \<and> (kraken_fetch_pairs (Inr kdata) qs = Some r' \<longrightarrow>
      total r' = length (all_pairs r')
      \<and> length (all_pairs r') = (\<Sum>q \<in> set qs. length (dict_get_default (results r') q []))
      \<and> (\<forall>q ps p. dict_get (results r') q = Some ps \<and> p \<in> set ps \<longrightarrow> quoteAsset p = q \<and> q \<in> set qs)
      \<and> (\<exists>items. kd_result kdata = Some items
            \<and> length (all_pairs r') = length (filter (kraken_keep qs) items)))"
proof (intro conjI impI)
  assume "binance_fetch_pairs (Inr bdata) qs = Some r"
  from binance_fetch_Some[OF this] obtain es where
    b: "symbols bdata = Some es" "grouped qs (results r) (all_pairs r)"
       "total r = length (all_pairs r)"
       "map (\<lambda>p. (Some (symbol p), Some (baseAsset p), Some (quoteAsset p))) (all_pairs r)
               = map (\<lambda>e. (b_symbol e, b_baseAsset e, b_quoteAsset e)) (filter (binance_keep qs) es)"
    by blast
  show "total r = length (all_pairs r)" by (rule b(3))
  show "length (all_pairs r) = (\<Sum>q \<in> set qs. length (dict_get_default (results r) q []))"
    using grouped_sum[OF b(2)] by simp
  show "\<forall>q ps p. dict_get (results r) q = Some ps \<and> p \<in> set ps \<longrightarrow> quoteAsset p = q \<and> q \<in> set qs"
    using grouped_key_mem[OF b(2)] by blast
  from b(4) have "length (all_pairs r) = length (filter (binance_keep qs) es)"
    using map_eq_imp_length_eq by blast
  with b(1) show "\<exists>es. symbols bdata = Some es
            \<and> length (all_pairs r) = length (filter (binance_keep qs) es)" by blast
next
  assume "kraken_fetch_pairs (Inr kdata) qs = Some r'"
  from kraken_fetch_char[OF this] obtain items where
    k: "kd_result kdata = Some items" "grouped qs (results r') (all_pairs r')"
       "total r' = length (all_pairs r')"
       "all_pairs r' = List.map_filter (kraken_normalize qs) items"
    by blast
  show "total r' = length (all_pairs r')" by (rule k(3))
  show "length (all_pairs r') = (\<Sum>q \<in> set qs. length (dict_get_default (results r') q []))"
    using grouped_sum[OF k(2)] by simp
  show "\<forall>q ps p. dict_get (results r') q = Some ps \<and> p \<in> set ps \<longrightarrow> quoteAsset p = q \<and> q \<in> set qs"
    using grouped_key_mem[OF k(2)] by blast
  have "length (all_pairs r') = length (filter (kraken_keep qs) items)"
    by (simp only: k(4) length_map_filter kraken_normalize_keep)
  with k(1) show "\<exists>items. kd_result kdata = Some items
            \<and> length (all_pairs r') = length (filter (kraken_keep qs) items)" by blast
qed

theorem fetch_result_counts_witness:
  "\<exists>r r'. binance_fetch_pairs (Inr example_binance_data) [''USD'', ''USDT''] = Some r
     \<and> kraken_fetch_pairs (Inr example_kraken_data) [''USD'', ''USDT''] = Some r'
     \<and> total r = 2 \<and> total r' = 2
     \<and> length (all_pairs r)
         = (\<Sum>q \<in> set [''USD'', ''USDT'']. length (dict_get_default (results r) q []))
     \<and> length (all_pairs r')
         = (\<Sum>q \<in> set [''USD'', ''USDT'']. length (dict_get_default (results r') q []))"
proof -
  note t = fetch_result_counts[of example_binance_data "[''USD'', ''USDT'']"
      example_binance_result example_kraken_data example_kraken_result]
  note b = t[THEN conjunct1, THEN mp, OF example_binance_fetch]
  note k = t[THEN conjunct2, THEN mp, OF example_kraken_fetch]
  have tb: "total example_binance_result = 2"
    by (simp add: example_binance_result_def Let_def)
  have tk: "total example_kraken_result = 2"
    by (simp add: example_kraken_result_def Let_def)
  show ?thesis
    by (rule exI[of _ example_binance_result], rule exI[of _ example_kraken_result])
       (intro conjI example_binance_fetch example_kraken_fetch tb tk
          b[THEN conjunct2, THEN conjunct1] k[THEN conjunct2, THEN conjunct1])
qed

text \<open>
  Claim C9 (as amended). For a successful fetch, the lines of the TradingView file are, for
  each requested asset in request order, the pairs of that asset sorted by symbol, each
  written as the upper-case exchange name, a colon and the symbol. Each group is sorted; the
  whole file is sorted when a single asset is requested; with distinct requested assets there
  is exactly one line per pair. The combined file is the concatenation of the per-exchange
  lines of the exchanges that succeeded, and is written only for more than one exchange.
\<close>

theorem tv_lines_spec:
  assumes "binance_fetch_pairs (Inr bd) qs = Some r \<or> kraken_fetch_pairs (Inr kd) qs = Some r"
  shows "tv_lines qs r =
           concat (map (\<lambda>q. map (\<lambda>p. str_upper (fr_exchange r) @ '':'' @ symbol p)
                          (sort_key symbol (filter (\<lambda>p. quoteAsset p = q) (all_pairs r)))) qs)
         \<and> (\<forall>q. sorted (map symbol (sort_key symbol (filter (\<lambda>p. quoteAsset p = q) (all_pairs r)))))
         \<and> (binance_fetch_pairs (Inr bd) qs = Some r \<longrightarrow> str_upper (fr_exchange r) = ''BINANCE'')
         \<and> (kraken_fetch_pairs (Inr kd) qs = Some r \<longrightarrow> str_upper (fr_exchange r) = ''KRAKEN'')
         \<and> (distinct qs \<longrightarrow>
              mset (tv_lines qs r)
                = image_mset (\<lambda>p. str_upper (fr_exchange r) @ '':'' @ symbol p) (mset (all_pairs r)))
         \<and> ((\<exists>q. qs = [q]) \<longrightarrow>
              tv_lines qs r
                = map (\<lambda>p. str_upper (fr_exchange r) @ '':'' @ symbol p) (sort_key symbol (all_pairs r))
              \<and> sorted (map symbol (sort_key symbol (all_pairs r))))
         \<and> tv_combined qs [Some r, Some r2] = Some (tv_lines qs r @ tv_lines qs r2)
         \<and> tv_combined qs [None, Some r] = Some (tv_lines qs r)
         \<and> tv_combined qs [Some r, None] = Some (tv_lines qs r)
         \<and> tv_combined qs [Some r] = None"
proof -
  from upper_exchange[OF assms] have g: "grouped qs (results r) (all_pairs r)" by simp
  have l: "tv_line e = (\<lambda>p. e @ '':'' @ symbol p)" for e
    by (rule ext) (simp add: tv_line_def)
  have 1: "tv_lines qs r =
           concat (map (\<lambda>q. map (\<lambda>p. str_upper (fr_exchange r) @ '':'' @ symbol p)
                          (sort_key symbol (filter (\<lambda>p. quoteAsset p = q) (all_pairs r)))) qs)"
    using tv_lines_grouped[OF g] unfolding l .
  have 2: "\<forall>q. sorted (map symbol (sort_key symbol (filter (\<lambda>p. quoteAsset p = q) (all_pairs r))))"
    by simp
  have 3: "binance_fetch_pairs (Inr bd) qs = Some r \<longrightarrow> str_upper (fr_exchange r) = ''BINANCE''"
    using binance_fetch_Some[of bd qs r] by (auto simp: upper_Binance)
  have 4: "kraken_fetch_pairs (Inr kd) qs = Some r \<longrightarrow> str_upper (fr_exchange r) = ''KRAKEN''"
    using kraken_fetch_char[of kd qs r] by (auto simp: upper_Kraken)
  have 5: "distinct qs \<longrightarrow>
              mset (tv_lines qs r)
                = image_mset (\<lambda>p. str_upper (fr_exchange r) @ '':'' @ symbol p) (mset (all_pairs r))"
    using mset_tv_lines[OF g] unfolding l by blast
  have 6: "(\<exists>q. qs = [q]) \<longrightarrow>
              tv_lines qs r
                = map (\<lambda>p. str_upper (fr_exchange r) @ '':'' @ symbol p) (sort_key symbol (all_pairs r))
              \<and> sorted (map symbol (sort_key symbol (all_pairs r)))"
  proof
    assume "\<exists>q. qs = [q]"
    then obtain q where q: "qs = [q]" by blast
    from g q have "grouped [q] (results r) (all_pairs r)" by simp
    from tv_lines_single[OF this] q
    show "tv_lines qs r
                = map (\<lambda>p. str_upper (fr_exchange r) @ '':'' @ symbol p) (sort_key symbol (all_pairs r))
              \<and> sorted (map symbol (sort_key symbol (all_pairs r)))"
      unfolding l by simp
  qed
  have 7: "tv_combined qs [Some r, Some r2] = Some (tv_lines qs r @ tv_lines qs r2)"
    by (simp add: tv_combined_two)
  have 8: "tv_combined qs [None, Some r] = Some (tv_lines qs r)"
    by (simp add: tv_combined_two)
  have 9: "tv_combined qs [Some r, None] = Some (tv_lines qs r)"
    by (simp add: tv_combined_two)
  have 10: "tv_combined qs [Some r] = None"
    by (simp add: tv_combined_def)
  show ?thesis
    by (intro conjI 1 2 3 4 5 6 7 8 9 10)
qed

theorem tv_lines_spec_witness:
  "\<exists>r. binance_fetch_pairs (Inr example_binance_data) [''USD'', ''USDT''] = Some r
     \<and> distinct [''USD'', ''USDT'']
     \<and> tv_lines [''USD'', ''USDT''] r = [''BINANCE:BTCUSD'', ''BINANCE:ETHUSDT'']
     \<and> str_upper (fr_exchange r) = ''BINANCE''
     \<and> mset (tv_lines [''USD'', ''USDT''] r)
         = image_mset (\<lambda>p. str_upper (fr_exchange r) @ '':'' @ symbol p) (mset (all_pairs r))
     \<and> tv_combined [''USD'', ''USDT''] [Some r, None] = Some (tv_lines [''USD'', ''USDT''] r)"
proof -
  have d: "distinct [''USD'', ''USDT'']" by simp
  have a: "binance_fetch_pairs (Inr example_binance_data) [''USD'', ''USDT''] = Some example_binance_result
     \<or> kraken_fetch_pairs (Inr example_kraken_data) [''USD'', ''USDT''] = Some example_binance_result"
    using example_binance_fetch by (rule disjI1)
  note t = tv_lines_spec[OF a, of undefined]
  note u = t[THEN conjunct2, THEN conjunct2, THEN conjunct1, THEN mp, OF example_binance_fetch]
  note m = t[THEN conjunct2, THEN conjunct2, THEN conjunct2, THEN conjunct2, THEN conjunct1,
      THEN mp, OF d]
  note c = t[THEN conjunct2, THEN conjunct2, THEN conjunct2, THEN conjunct2, THEN conjunct2,
      THEN conjunct2, THEN conjunct2, THEN conjunct2, THEN conjunct1]
  show ?thesis
    by (rule exI[of _ example_binance_result])
       (intro conjI example_binance_fetch d example_binance_lines u m c)
qed

text \<open>
  Claim C9 as stated says the lines are sorted by symbol across the whole file. With two
  requested assets the \<open>USDT\<close> group precedes the \<open>USDC\<close> group, and the symbols are not in
  order.
\<close>

theorem tv_lines_sorted_counterexample:
  "map_option (tv_lines [''USDT'', ''USDC''])
     (binance_fetch_pairs
        (Inr \<lparr>symbols = Some
           [\<lparr>b_symbol = Some ''ETHUSDT'', b_baseAsset = Some ''ETH'',
             b_quoteAsset = Some ''USDT'', b_status = Some ''TRADING''\<rparr>,
            \<lparr>b_symbol = Some ''BTCUSDC'', b_baseAsset = Some ''BTC'',
             b_quoteAsset = Some ''USDC'', b_status = Some ''TRADING''\<rparr>]\<rparr>)
        [''USDT'', ''USDC''])
     = Some [''BINANCE:ETHUSDT'', ''BINANCE:BTCUSDC'']
   \<and> \<not> sorted [''ETHUSDT'', ''BTCUSDC'']"
  by (simp add: binance_fetch_pairs_def init_results_def dict_get_def dict_append_def Let_def
      tv_lines_def tv_line_def dict_get_default_def upper_Binance)

end
